theory Spec2Isabelle
  imports Complex_Main "HOL-Library.Word" "HOL-Library.AList"
begin

unbundle bit_operations_syntax

section \<open>Errors\<close>

text \<open>
  The exceptions the two classes can raise. \<open>CacheError\<close> is the class of
  \<^verbatim>\<open>cache.py\<close>; it carries the optional message argument. The requests library raises
  a \<open>RequestException\<close> (a connection failure, or the \<open>HTTPError\<close> of
  \<^verbatim>\<open>raise_for_status\<close>), the operating system an \<open>OSError\<close> with an error number.
  Python itself raises \<open>ValueError\<close> for a path with a null character, before the
  operating system is asked, and \<open>UnicodeEncodeError\<close> for a string that UTF-8 cannot
  encode.
\<close>

datatype errno = ENOENT | ENOTDIR | EISDIR | EEXIST | ENAMETOOLONG

datatype request_error = ConnectionError | HTTPError nat

datatype error =
    CacheError "string option"
  | RequestException request_error
  | OSError errno
  | ValueError
  | UnicodeEncodeError

section \<open>The file system\<close>

text \<open>
  A file system is an association list from absolute, normalised paths (lists of
  components, the root being \<open>[]\<close>) to nodes. A node is a regular file with its stored
  characters or a directory, with a creation time and a modification time in seconds.
  The process may search and write every directory, there are no symbolic links, and
  the disk is never full.
\<close>

type_synonym path = "string list"

datatype kind = File string | Dir

record node =
  kind :: kind
  st_birthtime :: real
  st_mtime :: real

type_synonym filesystem = "(path \<times> node) list"

definition is_dir :: "filesystem \<Rightarrow> path \<Rightarrow> bool" where
  "is_dir fs p = (case map_of fs p of None \<Rightarrow> False | Some n \<Rightarrow> kind n = Dir)"

text \<open>
  The length in bytes of a name as the operating system receives it
  (\<^verbatim>\<open>os.fsencode\<close>, UTF-8): a code point from 128 on takes two bytes. A name may have
  255 bytes, a whole path, each component with its separator, fewer than 4096.
\<close>

definition name_bytes :: "string \<Rightarrow> nat" where
  "name_bytes s = length s + length (filter (\<lambda>c. 128 \<le> (of_char c :: nat)) s)"

definition path_bytes :: "path \<Rightarrow> nat" where
  "path_bytes p = sum_list (map (\<lambda>c. Suc (name_bytes c)) p)"

text \<open>
  Path resolution by the operating system: every component is looked up in the
  directory reached so far, which must exist and be a directory; a component longer
  than 255 bytes is refused there; \<open>..\<close> steps to the parent. The last component itself
  need not exist.
\<close>

fun walk :: "filesystem \<Rightarrow> path \<Rightarrow> string list \<Rightarrow> errno + path" where
  "walk fs cur [] = Inr cur"
| "walk fs cur (c # cs) =
     (case map_of fs cur of
        None \<Rightarrow> Inl ENOENT
      | Some n \<Rightarrow>
          if kind n \<noteq> Dir then Inl ENOTDIR
          else if 255 < name_bytes c then Inl ENAMETOOLONG
          else walk fs (if c = ''..'' then butlast cur else cur @ [c]) cs)"

text \<open>
  What every call that takes a path does first: Python refuses a null character,
  the operating system a path of 4096 bytes or more, then the path is resolved.
\<close>

definition resolve :: "filesystem \<Rightarrow> path \<Rightarrow> error + path" where
  "resolve fs p =
     (if \<exists>c \<in> set p. CHR 0x00 \<in> set c then Inl ValueError
      else if 4096 \<le> path_bytes p then Inl (OSError ENAMETOOLONG)
      else (case walk fs [] p of Inl e \<Rightarrow> Inl (OSError e) | Inr q \<Rightarrow> Inr q))"

definition stat :: "filesystem \<Rightarrow> path \<Rightarrow> error + node" where
  "stat fs p =
     (case resolve fs p of
        Inl e \<Rightarrow> Inl e
      | Inr q \<Rightarrow> (case map_of fs q of None \<Rightarrow> Inl (OSError ENOENT) | Some n \<Rightarrow> Inr n))"

text \<open>
  \<^verbatim>\<open>Path.exists()\<close> and \<^verbatim>\<open>Path.is_dir()\<close> as pathlib writes them: a \<^verbatim>\<open>stat\<close> that
  fails with \<open>ENOENT\<close> or \<open>ENOTDIR\<close>, or with \<open>ValueError\<close>, is \<open>False\<close>; any other
  error is raised again.
\<close>

fun ignore_error :: "error \<Rightarrow> bool" where
  "ignore_error (OSError e) = (e = ENOENT \<or> e = ENOTDIR)"
| "ignore_error ValueError = True"
| "ignore_error UnicodeEncodeError = True"
| "ignore_error (CacheError m) = False"
| "ignore_error (RequestException r) = False"

definition path_exists :: "filesystem \<Rightarrow> path \<Rightarrow> error + bool" where
  "path_exists fs p =
     (case stat fs p of
        Inl e \<Rightarrow> if ignore_error e then Inr False else Inl e
      | Inr n \<Rightarrow> Inr True)"

definition path_is_dir :: "filesystem \<Rightarrow> path \<Rightarrow> error + bool" where
  "path_is_dir fs p =
     (case stat fs p of
        Inl e \<Rightarrow> if ignore_error e then Inr False else Inl e
      | Inr n \<Rightarrow> Inr (kind n = Dir))"

text \<open>Adding or removing an entry of a directory sets the directory's modification time.\<close>

definition touch :: "real \<Rightarrow> path \<Rightarrow> filesystem \<Rightarrow> filesystem" where
  "touch t p fs =
     (case map_of fs p of
        None \<Rightarrow> fs
      | Some n \<Rightarrow> AList.update p (n\<lparr>st_mtime := t\<rparr>) fs)"

text \<open>
  \<^verbatim>\<open>open(file, 'w')\<close>, the write and the close, at time \<open>t\<close>: an existing regular file
  is truncated and rewritten (its creation time stays), a missing one is created in
  its directory, a directory is refused.
\<close>

definition write_file :: "real \<Rightarrow> filesystem \<Rightarrow> path \<Rightarrow> string \<Rightarrow> error + filesystem" where
  "write_file t fs p bytes =
     (case resolve fs p of
        Inl e \<Rightarrow> Inl e
      | Inr q \<Rightarrow>
          (case map_of fs q of
             Some n \<Rightarrow>
               if kind n = Dir then Inl (OSError EISDIR)
               else Inr (AList.update q (n\<lparr>kind := File bytes, st_mtime := t\<rparr>) fs)
           | None \<Rightarrow>
               if \<not> is_dir fs (butlast q) then Inl (OSError ENOENT)
               else Inr (touch t (butlast q)
                      (AList.update q \<lparr>kind = File bytes, st_birthtime = t, st_mtime = t\<rparr> fs))))"

definition read_file :: "filesystem \<Rightarrow> path \<Rightarrow> error + string" where
  "read_file fs p =
     (case stat fs p of
        Inl e \<Rightarrow> Inl e
      | Inr n \<Rightarrow> (case kind n of Dir \<Rightarrow> Inl (OSError EISDIR) | File bytes \<Rightarrow> Inr bytes))"

definition unlink :: "real \<Rightarrow> filesystem \<Rightarrow> path \<Rightarrow> error + filesystem" where
  "unlink t fs p =
     (case resolve fs p of
        Inl e \<Rightarrow> Inl e
      | Inr q \<Rightarrow>
          (case map_of fs q of
             None \<Rightarrow> Inl (OSError ENOENT)
           | Some n \<Rightarrow>
               if kind n = Dir then Inl (OSError EISDIR)
               else Inr (touch t (butlast q) (AList.delete q fs))))"

definition os_mkdir :: "real \<Rightarrow> filesystem \<Rightarrow> path \<Rightarrow> error + filesystem" where
  "os_mkdir t fs p =
     (case resolve fs p of
        Inl e \<Rightarrow> Inl e
      | Inr q \<Rightarrow>
          (case map_of fs q of
             Some n \<Rightarrow> Inl (OSError EEXIST)
           | None \<Rightarrow>
               if \<not> is_dir fs (butlast q) then Inl (OSError ENOENT)
               else Inr (touch t (butlast q)
                      (AList.update q \<lparr>kind = Dir, st_birthtime = t, st_mtime = t\<rparr> fs))))"

text \<open>
  \<^verbatim>\<open>Path.mkdir(parents=True, exist_ok=True)\<close> as pathlib writes it: try the directory,
  on \<open>FileNotFoundError\<close> make the parent first and try again, on any other
  \<open>OSError\<close> accept a directory that is already there (the test \<^verbatim>\<open>is_dir\<close> may raise
  itself). A \<open>ValueError\<close> is not caught. The file system comes back also on failure,
  since parents may have been made by then.
\<close>

definition exist_ok :: "filesystem \<Rightarrow> path \<Rightarrow> error \<Rightarrow> error + unit" where
  "exist_ok fs p e =
     (case e of
        OSError n \<Rightarrow>
          (case path_is_dir fs p of
             Inl e' \<Rightarrow> Inl e'
           | Inr b \<Rightarrow> if b then Inr () else Inl e)
      | _ \<Rightarrow> Inl e)"

fun mkdir_parents :: "real \<Rightarrow> filesystem \<Rightarrow> path \<Rightarrow> (error + unit) \<times> filesystem" where
  "mkdir_parents t fs p =
     (case os_mkdir t fs p of
        Inr fs' \<Rightarrow> (Inr (), fs')
      | Inl e \<Rightarrow>
          if e = OSError ENOENT then
            (if p = [] then (Inl e, fs)
             else
               (case mkdir_parents t fs (butlast p) of
                  (Inl e', fs1) \<Rightarrow> (Inl e', fs1)
                | (Inr u, fs1) \<Rightarrow>
                    (case os_mkdir t fs1 p of
                       Inr fs2 \<Rightarrow> (Inr (), fs2)
                     | Inl e2 \<Rightarrow>
                         if e2 = OSError ENOENT then (Inl e2, fs1)
                         else (exist_ok fs1 p e2, fs1))))
          else (exist_ok fs p e, fs))"

declare mkdir_parents.simps [simp del]

text \<open>
  \<^verbatim>\<open>Path.iterdir()\<close>: the entries of a directory, each as the directory's path
  extended by the entry's name. The operating system lists the names in an order of
  its own, here the order of the ranks the names have in \<open>rank\<close>.
\<close>

definition iterdir :: "(string \<Rightarrow> nat) \<Rightarrow> filesystem \<Rightarrow> path \<Rightarrow> error + path list" where
  "iterdir rank fs p =
     (case resolve fs p of
        Inl e \<Rightarrow> Inl e
      | Inr q \<Rightarrow>
          (case map_of fs q of
             None \<Rightarrow> Inl (OSError ENOENT)
           | Some n \<Rightarrow>
               if kind n \<noteq> Dir then Inl (OSError ENOTDIR)
               else Inr (map (\<lambda>name. p @ [name])
                      (sort_key rank (remdups (map last
                         (filter (\<lambda>r. r \<noteq> [] \<and> butlast r = q) (map fst fs))))))))"

section \<open>Paths of pathlib\<close>

text \<open>
  \<^verbatim>\<open>cache_dir / name\<close>: the string is split at the separator, empty components and
  \<open>.\<close> are dropped, and an absolute string replaces the left operand.
\<close>

fun split_sep :: "string \<Rightarrow> string list" where
  "split_sep [] = [[]]"
| "split_sep (c # cs) =
     (if c = CHR ''/'' then [] # split_sep cs
      else (case split_sep cs of [] \<Rightarrow> [[c]] | w # ws \<Rightarrow> (c # w) # ws))"

definition parts :: "string \<Rightarrow> string list" where
  "parts s = filter (\<lambda>w. w \<noteq> [] \<and> w \<noteq> ''.'') (split_sep s)"

definition is_absolute :: "string \<Rightarrow> bool" where
  "is_absolute s = (case s of [] \<Rightarrow> False | c # cs \<Rightarrow> c = CHR ''/'')"

definition joinpath :: "path \<Rightarrow> string \<Rightarrow> path" where
  "joinpath p s = (if is_absolute s then parts s else p @ parts s)"

section \<open>Text files\<close>

text \<open>
  Both \<^verbatim>\<open>open\<close> calls of \<^verbatim>\<open>cache.py\<close> are in text mode with the default
  \<^verbatim>\<open>newline=None\<close>: on writing every line feed becomes the platform's line separator,
  on reading universal newlines are on, so a carriage return, alone or followed by a
  line feed, is read as one line feed.
\<close>

definition text_write :: "string \<Rightarrow> string \<Rightarrow> string" where
  "text_write sep data = concat (map (\<lambda>c. if c = CHR 0x0A then sep else [c]) data)"

fun text_read :: "string \<Rightarrow> string" where
  "text_read [] = []"
| "text_read [c] = (if c = CHR 0x0D then [CHR 0x0A] else [c])"
| "text_read (c # d # cs) =
     (if c = CHR 0x0D then
        (if d = CHR 0x0A then CHR 0x0A # text_read cs else CHR 0x0A # text_read (d # cs))
      else c # text_read (d # cs))"

section \<open>Floating-point numbers\<close>

text \<open>
  A Python \<^verbatim>\<open>float\<close> is an IEEE 754 binary64 number. A finite one is the real it
  denotes. The result of an operation is the exact result rounded to the nearest
  number with a significand of 53 bits (the spacing never below \<open>2\<^sup>-\<^sup>1\<^sup>0\<^sup>7\<^sup>4\<close>), a tie to
  the even one; a result that rounds to \<open>2\<^sup>1\<^sup>0\<^sup>2\<^sup>4\<close> or beyond is an infinity. The clock
  and the time stamps are finite, so no operation of \<^verbatim>\<open>how_old\<close> meets a NaN.
\<close>

datatype pyfloat = Finite real | PosInf | NegInf

definition round_half_even :: "real \<Rightarrow> int" where
  "round_half_even x =
     (let f = \<lfloor>x\<rfloor>; d = x - of_int f in
      if d < 1 / 2 then f else if 1 / 2 < d then f + 1 else if even f then f else f + 1)"

text \<open>
  The exponent \<open>e\<close> of the spacing \<open>2\<^sup>e\<close> around a magnitude \<open>a\<close>: from \<open>e\<close> down while
  \<open>a < 2\<^sup>e\<^sup>+\<^sup>5\<^sup>2\<close>, up while \<open>2\<^sup>e\<^sup>+\<^sup>5\<^sup>3 \<le> a\<close>, within \<open>-1074 \<dots> 971\<close>.
\<close>

fun spacing_exp :: "nat \<Rightarrow> real \<Rightarrow> int \<Rightarrow> int" where
  "spacing_exp 0 a e = e"
| "spacing_exp (Suc k) a e =
     (if a < 2 powi (e + 52) \<and> - 1074 < e then spacing_exp k a (e - 1)
      else if 2 powi (e + 53) \<le> a \<and> e < 971 then spacing_exp k a (e + 1)
      else e)"

definition float_round :: "real \<Rightarrow> pyfloat" where
  "float_round x =
     (if x = 0 then Finite 0
      else
        (let e = spacing_exp 1100 \<bar>x\<bar> 0;
             r = of_int (round_half_even (x / 2 powi e)) * 2 powi e
         in if 2 ^ 1024 \<le> r then PosInf
            else if r \<le> - (2 ^ 1024) then NegInf
            else Finite r))"

definition float_sub :: "real \<Rightarrow> real \<Rightarrow> pyfloat" where
  "float_sub a b = float_round (a - b)"

text \<open>The product of a float and a positive finite float, as \<^verbatim>\<open>age * 1000\<close> is.\<close>

definition float_mul :: "pyfloat \<Rightarrow> real \<Rightarrow> pyfloat" where
  "float_mul a b =
     (case a of
        Finite x \<Rightarrow> float_round (x * b)
      | PosInf \<Rightarrow> PosInf
      | NegInf \<Rightarrow> NegInf)"


section \<open>The environment of a call\<close>

text \<open>
  What the outside world answers during one call: the platform's line separator,
  whether \<^verbatim>\<open>stat\<close> results have \<^verbatim>\<open>st_birthtime\<close>, the reading of the clock, the
  order in which a directory lists its names, and the answer of the network to a GET
  of each URL. A URL is a Python string, a list of code points.
\<close>

datatype response = Response (status_code: nat) (resp_text: string)

type_synonym url = "nat list"

record env =
  linesep :: string
  has_birthtime :: bool
  now :: real
  dir_rank :: "string \<Rightarrow> nat"
  http :: "url \<Rightarrow> request_error + response"

text \<open>\<^verbatim>\<open>Response.raise_for_status()\<close> raises for the 4xx and 5xx status codes only.\<close>

definition raise_for_status :: "response \<Rightarrow> request_error + unit" where
  "raise_for_status r =
     (if 400 \<le> status_code r \<and> status_code r < 600 then Inl (HTTPError (status_code r))
      else Inr ())"

text \<open>The persistent state: the files, and the list of the GET requests sent so far.\<close>

record world =
  files :: filesystem
  requests :: "url list"

section \<open>Cache\<close>

record cache =
  app_name :: string
  obsolescence :: int
  cache_dir :: path

definition create_app_dir :: "env \<Rightarrow> world \<Rightarrow> path \<Rightarrow> (error + unit) \<times> world" where
  "create_app_dir E w cd =
     (case mkdir_parents (now E) (files w) cd of
        (Inl e, fs') \<Rightarrow> (Inl e, w\<lparr>files := fs'\<rparr>)
      | (Inr u, fs') \<Rightarrow> (Inr (), w\<lparr>files := fs'\<rparr>))"

definition Cache_init ::
  "env \<Rightarrow> world \<Rightarrow> string \<Rightarrow> int \<Rightarrow> path \<Rightarrow> (error + cache) \<times> world" where
  "Cache_init E w app obs base =
     (if obs < 0 then (Inl (CacheError (Some ''La obsolescencia no puede ser negativa'')), w)
      else
        (let c = \<lparr>app_name = app, obsolescence = obs, cache_dir = joinpath base app\<rparr>
         in case create_app_dir E w (cache_dir c) of
              (Inl e, w') \<Rightarrow> (Inl e, w')
            | (Inr u, w') \<Rightarrow> (Inr c, w')))"

definition Cache_set :: "env \<Rightarrow> cache \<Rightarrow> world \<Rightarrow> string \<Rightarrow> string \<Rightarrow> (error + unit) \<times> world" where
  "Cache_set E c w name data =
     (case write_file (now E) (files w) (joinpath (cache_dir c) name)
             (text_write (linesep E) data) of
        Inl e \<Rightarrow> (Inl e, w)
      | Inr fs' \<Rightarrow> (Inr (), w\<lparr>files := fs'\<rparr>))"

definition Cache_exists :: "cache \<Rightarrow> world \<Rightarrow> string \<Rightarrow> error + bool" where
  "Cache_exists c w name = path_exists (files w) (joinpath (cache_dir c) name)"

definition no_file_msg :: "string \<Rightarrow> string" where
  "no_file_msg name =
     ''No existe el archivo '' @ [CHR 0x27] @ name @ [CHR 0x27] @ '' en cache.''"

definition Cache_load :: "cache \<Rightarrow> world \<Rightarrow> string \<Rightarrow> error + string" where
  "Cache_load c w name =
     (let path = joinpath (cache_dir c) name in
      case path_exists (files w) path of
        Inl e \<Rightarrow> Inl e
      | Inr b \<Rightarrow>
          if b then
            (case read_file (files w) path of
               Inl e \<Rightarrow> Inl e
             | Inr bytes \<Rightarrow> Inr (text_read bytes))
          else Inl (CacheError (Some (no_file_msg name))))"

definition Cache_how_old :: "env \<Rightarrow> cache \<Rightarrow> world \<Rightarrow> string \<Rightarrow> error + pyfloat" where
  "Cache_how_old E c w name =
     (let path = joinpath (cache_dir c) name in
      case path_exists (files w) path of
        Inl e \<Rightarrow> Inl e
      | Inr b \<Rightarrow>
          if b then
            (case stat (files w) path of
               Inl e \<Rightarrow> Inl e
             | Inr n \<Rightarrow>
                 (let created_time = (if has_birthtime E then st_birthtime n else st_mtime n);
                      age = float_sub (now E) created_time
                  in Inr (float_mul age 1000)))
          else Inl (CacheError (Some (no_file_msg name))))"

definition Cache_delete :: "env \<Rightarrow> cache \<Rightarrow> world \<Rightarrow> string \<Rightarrow> (error + unit) \<times> world" where
  "Cache_delete E c w name =
     (let path = joinpath (cache_dir c) name in
      case path_exists (files w) path of
        Inl e \<Rightarrow> (Inl e, w)
      | Inr b \<Rightarrow>
          if b then
            (case unlink (now E) (files w) path of
               Inl e \<Rightarrow> (Inl e, w)
             | Inr fs' \<Rightarrow> (Inr (), w\<lparr>files := fs'\<rparr>))
          else (Inl (CacheError None), w))"

text \<open>The loop of \<^verbatim>\<open>clear\<close>: the first failing \<^verbatim>\<open>unlink\<close> ends it.\<close>

fun unlink_each :: "env \<Rightarrow> world \<Rightarrow> path list \<Rightarrow> (error + unit) \<times> world" where
  "unlink_each E w [] = (Inr (), w)"
| "unlink_each E w (f # fs) =
     (case unlink (now E) (files w) f of
        Inl e \<Rightarrow> (Inl e, w)
      | Inr fs' \<Rightarrow> unlink_each E (w\<lparr>files := fs'\<rparr>) fs)"

definition Cache_clear :: "env \<Rightarrow> cache \<Rightarrow> world \<Rightarrow> (error + unit) \<times> world" where
  "Cache_clear E c w =
     (case iterdir (dir_rank E) (files w) (cache_dir c) of
        Inl e \<Rightarrow> (Inl e, w)
      | Inr entries \<Rightarrow> unlink_each E w entries)"

section \<open>UTF-8\<close>

text \<open>
  \<^verbatim>\<open>url.encode("utf-8")\<close>: one to four bytes for a code point; a surrogate
  (\<open>0xD800\<close> to \<open>0xDFFF\<close>) raises \<open>UnicodeEncodeError\<close>. A number from \<open>0x110000\<close> on is
  no code point of a Python string and is refused in the same way.
\<close>

type_synonym byte = "8 word"
type_synonym u32 = "32 word"

definition utf8_char :: "nat \<Rightarrow> error + nat list" where
  "utf8_char n =
     (if n < 0x80 then Inr [n]
      else if n < 0x800 then Inr [0xC0 + n div 64, 0x80 + n mod 64]
      else if 0xD800 \<le> n \<and> n < 0xE000 then Inl UnicodeEncodeError
      else if n < 0x10000 then
        Inr [0xE0 + n div 4096, 0x80 + n div 64 mod 64, 0x80 + n mod 64]
      else if n < 0x110000 then
        Inr [0xF0 + n div 262144, 0x80 + n div 4096 mod 64, 0x80 + n div 64 mod 64,
             0x80 + n mod 64]
      else Inl UnicodeEncodeError)"

fun utf8_encode :: "nat list \<Rightarrow> error + byte list" where
  "utf8_encode [] = Inr []"
| "utf8_encode (n # ns) =
     (case utf8_char n of
        Inl e \<Rightarrow> Inl e
      | Inr bs \<Rightarrow>
          (case utf8_encode ns of
             Inl e \<Rightarrow> Inl e
           | Inr rest \<Rightarrow> Inr (map of_nat bs @ rest)))"

text \<open>
  The decoder of RFC 3629, written from the standard's table of byte sequences and
  not from the encoder: a lead byte says how many continuation bytes (\<open>10xxxxxx\<close>)
  follow, and a sequence longer than its code point needs, a surrogate and a value
  beyond \<open>0x10FFFF\<close> are ill-formed.
\<close>

definition continuation :: "byte \<Rightarrow> bool" where
  "continuation b = (0x80 \<le> unat b \<and> unat b < 0xC0)"

fun utf8_decode :: "byte list \<Rightarrow> nat list option" where
  "utf8_decode [] = Some []"
| "utf8_decode (b # bs) =
     (if unat b < 0x80 then map_option (Cons (unat b)) (utf8_decode bs)
      else if 0xC2 \<le> unat b \<and> unat b < 0xE0 then
        (case bs of
           c1 # r \<Rightarrow>
             if continuation c1
             then map_option (Cons ((unat b - 0xC0) * 64 + (unat c1 - 0x80))) (utf8_decode r)
             else None
         | _ \<Rightarrow> None)
      else if 0xE0 \<le> unat b \<and> unat b < 0xF0 then
        (case bs of
           c1 # c2 # r \<Rightarrow>
             (let n = (unat b - 0xE0) * 4096 + (unat c1 - 0x80) * 64 + (unat c2 - 0x80) in
              if continuation c1 \<and> continuation c2 \<and> 0x800 \<le> n \<and> \<not> (0xD800 \<le> n \<and> n < 0xE000)
              then map_option (Cons n) (utf8_decode r)
              else None)
         | _ \<Rightarrow> None)
      else if 0xF0 \<le> unat b \<and> unat b < 0xF5 then
        (case bs of
           c1 # c2 # c3 # r \<Rightarrow>
             (let n = (unat b - 0xF0) * 262144 + (unat c1 - 0x80) * 4096
                      + (unat c2 - 0x80) * 64 + (unat c3 - 0x80) in
              if continuation c1 \<and> continuation c2 \<and> continuation c3
                 \<and> 0x10000 \<le> n \<and> n < 0x110000
              then map_option (Cons n) (utf8_decode r)
              else None)
         | _ \<Rightarrow> None)
      else None)"

section \<open>MD5\<close>

text \<open>\<^verbatim>\<open>hashlib.md5\<close> (RFC 1321): padding, 64 steps on each block of 64 bytes.\<close>

definition md5_K :: "u32 list" where
  "md5_K =
    [0xd76aa478, 0xe8c7b756, 0x242070db, 0xc1bdceee, 0xf57c0faf, 0x4787c62a, 0xa8304613, 0xfd469501,
     0x698098d8, 0x8b44f7af, 0xffff5bb1, 0x895cd7be, 0x6b901122, 0xfd987193, 0xa679438e, 0x49b40821,
     0xf61e2562, 0xc040b340, 0x265e5a51, 0xe9b6c7aa, 0xd62f105d, 0x02441453, 0xd8a1e681, 0xe7d3fbc8,
     0x21e1cde6, 0xc33707d6, 0xf4d50d87, 0x455a14ed, 0xa9e3e905, 0xfcefa3f8, 0x676f02d9, 0x8d2a4c8a,
     0xfffa3942, 0x8771f681, 0x6d9d6122, 0xfde5380c, 0xa4beea44, 0x4bdecfa9, 0xf6bb4b60, 0xbebfbc70,
     0x289b7ec6, 0xeaa127fa, 0xd4ef3085, 0x04881d05, 0xd9d4d039, 0xe6db99e5, 0x1fa27cf8, 0xc4ac5665,
     0xf4292244, 0x432aff97, 0xab9423a7, 0xfc93a039, 0x655b59c3, 0x8f0ccc92, 0xffeff47d, 0x85845dd1,
     0x6fa87e4f, 0xfe2ce6e0, 0xa3014314, 0x4e0811a1, 0xf7537e82, 0xbd3af235, 0x2ad7d2bb, 0xeb86d391]"

definition md5_S :: "nat list" where
  "md5_S =
    [7, 12, 17, 22, 7, 12, 17, 22, 7, 12, 17, 22, 7, 12, 17, 22,
     5, 9, 14, 20, 5, 9, 14, 20, 5, 9, 14, 20, 5, 9, 14, 20,
     4, 11, 16, 23, 4, 11, 16, 23, 4, 11, 16, 23, 4, 11, 16, 23,
     6, 10, 15, 21, 6, 10, 15, 21, 6, 10, 15, 21, 6, 10, 15, 21]"

definition rotl32 :: "u32 \<Rightarrow> nat \<Rightarrow> u32" where
  "rotl32 x n = push_bit n x OR drop_bit (32 - n) x"

definition le_bytes32 :: "u32 \<Rightarrow> byte list" where
  "le_bytes32 w = map (\<lambda>i. ucast (drop_bit (8 * i) w)) [0..<4]"

definition le_bytes64 :: "64 word \<Rightarrow> byte list" where
  "le_bytes64 w = map (\<lambda>i. ucast (drop_bit (8 * i) w)) [0..<8]"

definition le_word :: "byte list \<Rightarrow> u32" where
  "le_word bs = foldr (\<lambda>b acc. ucast b + push_bit 8 acc) bs 0"

definition md5_pad :: "byte list \<Rightarrow> byte list" where
  "md5_pad m =
     m @ [0x80] @ replicate ((119 - length m mod 64) mod 64) 0
       @ le_bytes64 (of_nat (8 * length m))"

fun chunks :: "nat \<Rightarrow> 'a list \<Rightarrow> 'a list list" where
  "chunks n [] = []"
| "chunks n (x # xs) =
     (if n = 0 then [] else take n (x # xs) # chunks n (drop n (x # xs)))"

definition md5_round ::
  "u32 list \<Rightarrow> u32 \<times> u32 \<times> u32 \<times> u32 \<Rightarrow> nat \<Rightarrow> u32 \<times> u32 \<times> u32 \<times> u32" where
  "md5_round M st i =
     (case st of (A, B, C, D) \<Rightarrow>
        let (F, g) =
              (if i < 16 then ((B AND C) OR (NOT B AND D), i)
               else if i < 32 then ((D AND B) OR (NOT D AND C), (5 * i + 1) mod 16)
               else if i < 48 then (B XOR C XOR D, (3 * i + 5) mod 16)
               else (C XOR (B OR NOT D), (7 * i) mod 16));
            F' = F + A + md5_K ! i + M ! g
        in (D, B + rotl32 F' (md5_S ! i), B, C))"

definition md5_block ::
  "u32 \<times> u32 \<times> u32 \<times> u32 \<Rightarrow> byte list \<Rightarrow> u32 \<times> u32 \<times> u32 \<times> u32" where
  "md5_block h blk =
     (case h of (a0, b0, c0, d0) \<Rightarrow>
        case foldl (md5_round (map le_word (chunks 4 blk))) h [0..<64] of
          (A, B, C, D) \<Rightarrow> (a0 + A, b0 + B, c0 + C, d0 + D))"

definition md5 :: "byte list \<Rightarrow> byte list" where
  "md5 m =
     (case foldl md5_block (0x67452301, 0xefcdab89, 0x98badcfe, 0x10325476)
             (chunks 64 (md5_pad m)) of
        (a, b, c, d) \<Rightarrow> concat (map le_bytes32 [a, b, c, d]))"

definition hex_digit :: "nat \<Rightarrow> char" where
  "hex_digit n = ''0123456789abcdef'' ! (n mod 16)"

definition hex_byte :: "byte \<Rightarrow> string" where
  "hex_byte b = [hex_digit (unat b div 16), hex_digit (unat b mod 16)]"

definition hexdigest :: "byte list \<Rightarrow> string" where
  "hexdigest bs = concat (map hex_byte bs)"

section \<open>CacheUrl\<close>

text \<open>
  The subclass hashes the URL and calls the method of \<open>Cache\<close> on the digest; a URL
  that UTF-8 cannot encode raises there. \<^verbatim>\<open>get\<close> alone reaches the network: the
  request is logged, a failing request or an error status raises before anything is
  written.
\<close>

definition CacheUrl_hash :: "url \<Rightarrow> error + string" where
  "CacheUrl_hash url =
     (case utf8_encode url of Inl e \<Rightarrow> Inl e | Inr bs \<Rightarrow> Inr (hexdigest (md5 bs)))"

definition CacheUrl_get :: "env \<Rightarrow> cache \<Rightarrow> world \<Rightarrow> url \<Rightarrow> (error + string) \<times> world" where
  "CacheUrl_get E c w url =
     (case CacheUrl_hash url of
        Inl e \<Rightarrow> (Inl e, w)
      | Inr url_hashed \<Rightarrow>
          (case Cache_exists c w url_hashed of
             Inl e \<Rightarrow> (Inl e, w)
           | Inr b \<Rightarrow>
               if b then (Cache_load c w url_hashed, w)
               else
                 (let w1 = w\<lparr>requests := requests w @ [url]\<rparr> in
                  case http E url of
                    Inl e \<Rightarrow> (Inl (RequestException e), w1)
                  | Inr response \<Rightarrow>
                      (case raise_for_status response of
                         Inl e \<Rightarrow> (Inl (RequestException e), w1)
                       | Inr u \<Rightarrow>
                           (case Cache_set E c w1 url_hashed (resp_text response) of
                              (Inl e, w2) \<Rightarrow> (Inl e, w2)
                            | (Inr u', w2) \<Rightarrow> (Inr (resp_text response), w2))))))"

definition CacheUrl_exists :: "cache \<Rightarrow> world \<Rightarrow> url \<Rightarrow> error + bool" where
  "CacheUrl_exists c w url =
     (case CacheUrl_hash url of Inl e \<Rightarrow> Inl e | Inr h \<Rightarrow> Cache_exists c w h)"

definition CacheUrl_load :: "cache \<Rightarrow> world \<Rightarrow> url \<Rightarrow> error + string" where
  "CacheUrl_load c w url =
     (case CacheUrl_hash url of Inl e \<Rightarrow> Inl e | Inr h \<Rightarrow> Cache_load c w h)"

definition CacheUrl_how_old :: "env \<Rightarrow> cache \<Rightarrow> world \<Rightarrow> url \<Rightarrow> error + pyfloat" where
  "CacheUrl_how_old E c w url =
     (case CacheUrl_hash url of Inl e \<Rightarrow> Inl e | Inr h \<Rightarrow> Cache_how_old E c w h)"

definition CacheUrl_delete :: "env \<Rightarrow> cache \<Rightarrow> world \<Rightarrow> url \<Rightarrow> (error + unit) \<times> world" where
  "CacheUrl_delete E c w url =
     (case CacheUrl_hash url of Inl e \<Rightarrow> (Inl e, w) | Inr h \<Rightarrow> Cache_delete E c w h)"

section \<open>Histories\<close>

text \<open>
  A history of a cache: the calls made on it one after the other, each with the
  environment it meets, from a first state of the world. Only \<^verbatim>\<open>set\<close> and a
  \<^verbatim>\<open>get\<close> write an entry; \<open>written_path\<close> is the node such a call writes, if its
  path resolves.
\<close>

datatype operation =
    Set string string
  | Get url
  | Exists string
  | Load string
  | How_old string
  | Delete string
  | Clear

fun exec :: "cache \<Rightarrow> world \<Rightarrow> env \<times> operation \<Rightarrow> world" where
  "exec c w (E, Set k d) = snd (Cache_set E c w k d)"
| "exec c w (E, Get u) = snd (CacheUrl_get E c w u)"
| "exec c w (E, Exists k) = w"
| "exec c w (E, Load k) = w"
| "exec c w (E, How_old k) = w"
| "exec c w (E, Delete k) = snd (Cache_delete E c w k)"
| "exec c w (E, Clear) = snd (Cache_clear E c w)"

definition run :: "cache \<Rightarrow> world \<Rightarrow> (env \<times> operation) list \<Rightarrow> world" where
  "run c w ops = foldl (exec c) w ops"

fun written_path :: "cache \<Rightarrow> world \<Rightarrow> operation \<Rightarrow> path option" where
  "written_path c w (Set k d) =
     (case resolve (files w) (joinpath (cache_dir c) k) of Inl e \<Rightarrow> None | Inr q \<Rightarrow> Some q)"
| "written_path c w (Get u) =
     (case CacheUrl_hash u of
        Inl e \<Rightarrow> None
      | Inr h \<Rightarrow>
          (case resolve (files w) (joinpath (cache_dir c) h) of
             Inl e \<Rightarrow> None
           | Inr q \<Rightarrow> Some q))"
| "written_path c w (Exists k) = None"
| "written_path c w (Load k) = None"
| "written_path c w (How_old k) = None"
| "written_path c w (Delete k) = None"
| "written_path c w Clear = None"

text \<open>
  A call writes the entry of a key when the node it writes is the one the key's path
  resolves to. A key was never written in a history when no call of it did so.
\<close>

definition writes_entry :: "cache \<Rightarrow> world \<Rightarrow> operation \<Rightarrow> string \<Rightarrow> bool" where
  "writes_entry c w oper k =
     (case written_path c w oper of
        None \<Rightarrow> False
      | Some q \<Rightarrow> resolve (files w) (joinpath (cache_dir c) k) = Inr q)"

fun never_written :: "cache \<Rightarrow> string \<Rightarrow> world \<Rightarrow> (env \<times> operation) list \<Rightarrow> bool" where
  "never_written c k w [] = True"
| "never_written c k w (x # xs) =
     (\<not> writes_entry c w (snd x) k \<and> never_written c k (exec c w x) xs)"

section \<open>Predicates of the statements\<close>

text \<open>
  A plain file name: not empty, without a separator, and neither \<open>.\<close> nor \<open>..\<close>.
  For such a key \<^verbatim>\<open>cache_dir / key\<close> is the entry \<open>key\<close> of the namespace directory.
\<close>

definition plain_name :: "string \<Rightarrow> bool" where
  "plain_name k = (k \<noteq> [] \<and> CHR ''/'' \<notin> set k \<and> k \<noteq> ''.'' \<and> k \<noteq> ''..'')"

text \<open>
  A path the operating system takes: no null character, no component above 255
  bytes, fewer than 4096 bytes in all.
\<close>

definition admissible :: "path \<Rightarrow> bool" where
  "admissible p =
     (list_all (\<lambda>c. CHR 0x00 \<notin> set c \<and> name_bytes c \<le> 255) p \<and> path_bytes p < 4096)"

text \<open>
  Nothing stands in the way of a directory at \<open>p\<close>: the root is a directory, no
  component of \<open>p\<close> is \<open>..\<close>, and whatever exists at \<open>p\<close> or above it is a directory.
\<close>

definition unobstructed :: "filesystem \<Rightarrow> path \<Rightarrow> bool" where
  "unobstructed fs p =
     (is_dir fs [] \<and> ''..'' \<notin> set p \<and>
      list_all (\<lambda>i. map_of fs (take i p) = None \<or> is_dir fs (take i p)) [0..<Suc (length p)])"

text \<open>The code points of a string of characters below 256.\<close>

definition codepoints :: "string \<Rightarrow> nat list" where
  "codepoints s = map of_char s"

section \<open>Example states\<close>

text \<open>
  The cache of the repository's tests, \<^verbatim>\<open>CacheUrl("test_app", 10, Path("/tmp/cache"))\<close>,
  a URL and its digest, an environment without network and one that answers every
  GET alike, and states of the world around the namespace directory.
\<close>

definition ex_dir :: "real \<Rightarrow> node" where
  "ex_dir t = \<lparr>kind = Dir, st_birthtime = t, st_mtime = t\<rparr>"

definition ex_cache :: cache where
  "ex_cache = \<lparr>app_name = ''test_app'', obsolescence = 10,
                cache_dir = [''tmp'', ''cache'', ''test_app'']\<rparr>"

definition ex_url :: url where
  "ex_url = codepoints ''http://x/data.csv''"

definition ex_key :: string where
  "ex_key = ''121141b98ee59dd31db74206e0ddd2db''"

definition ex_offline :: env where
  "ex_offline = \<lparr>linesep = [CHR 0x0A], has_birthtime = False, now = 5000,
                  dir_rank = (\<lambda>name. 0), http = (\<lambda>u. Inl ConnectionError)\<rparr>"

definition ex_online :: "nat \<Rightarrow> string \<Rightarrow> env" where
  "ex_online st body = \<lparr>linesep = [CHR 0x0A], has_birthtime = False, now = 1000,
                  dir_rank = (\<lambda>name. 0), http = (\<lambda>u. Inr (Response st body))\<rparr>"

definition ex_empty :: world where
  "ex_empty =
     \<lparr>files = [([], ex_dir 0), ([''tmp''], ex_dir 0), ([''tmp'', ''cache''], ex_dir 0),
               ([''tmp'', ''cache'', ''test_app''], ex_dir 0)],
      requests = []\<rparr>"

definition ex_cached :: world where
  "ex_cached =
     \<lparr>files = [([], ex_dir 0), ([''tmp''], ex_dir 0), ([''tmp'', ''cache''], ex_dir 0),
               ([''tmp'', ''cache'', ''test_app''],
                \<lparr>kind = Dir, st_birthtime = 0, st_mtime = 1000\<rparr>),
               ([''tmp'', ''cache'', ''test_app'', ex_key],
                \<lparr>kind = File ''a,b'', st_birthtime = 1000, st_mtime = 1000\<rparr>)],
      requests = [ex_url]\<rparr>"



text \<open>A name of 256 bytes, one more than a file name may have, and a short history.\<close>

definition ex_long_name :: string where
  "ex_long_name = replicate 256 (CHR ''a'')"

definition ex_history :: "(env \<times> operation) list" where
  "ex_history =
     [(ex_offline, Set ''a.txt'' ''1''),
      (ex_online 200 ''a,b'', Get ex_url),
      (ex_offline, Delete ''a.txt'')]"

section \<open>Facts about the file system, paths and text files\<close>

lemma map_of_touch:
  "map_of (touch t p fs) r =
     (if r = p then map_option (\<lambda>n. n\<lparr>st_mtime := t\<rparr>) (map_of fs p) else map_of fs r)"
  by (simp add: touch_def update_conv' split: option.splits)

lemma is_dir_touch [simp]: "is_dir (touch t p fs) r = is_dir fs r"
  by (simp add: is_dir_def map_of_touch split: option.splits)

lemma walk_mono:
  "walk fs cur cs = Inr q \<Longrightarrow> (\<And>r. is_dir fs r \<Longrightarrow> is_dir fs' r) \<Longrightarrow> walk fs' cur cs = Inr q"
proof (induction cs arbitrary: cur)
  case Nil
  then show ?case by simp
next
  case (Cons c cs)
  from Cons.prems(1) obtain n where n: "map_of fs cur = Some n" "kind n = Dir"
    by (auto split: option.splits if_splits)
  then have "is_dir fs cur" by (simp add: is_dir_def)
  then have "is_dir fs' cur" by (rule Cons.prems(2))
  then obtain n' where n': "map_of fs' cur = Some n'" "kind n' = Dir"
    by (auto simp: is_dir_def split: option.splits)
  from Cons.prems(1) n have len: "\<not> 255 < name_bytes c"
    by (simp split: if_splits)
  from Cons.prems(1) n have "walk fs (if c = ''..'' then butlast cur else cur @ [c]) cs = Inr q"
    by (simp split: if_splits)
  then have "walk fs' (if c = ''..'' then butlast cur else cur @ [c]) cs = Inr q"
    using Cons.prems(2) by (rule Cons.IH)
  with n' len show ?case by simp
qed

lemma walk_append:
  "walk fs cur (xs @ ys) = (case walk fs cur xs of Inl e \<Rightarrow> Inl e | Inr q \<Rightarrow> walk fs q ys)"
  by (induction xs arbitrary: cur) (auto split: option.splits)


lemma split_sep_plain: "CHR ''/'' \<notin> set k \<Longrightarrow> split_sep k = [k]"
  by (induction k) auto

lemma joinpath_plain: "plain_name k \<Longrightarrow> joinpath p k = p @ [k]"
  by (cases k) (auto simp: plain_name_def joinpath_def is_absolute_def parts_def split_sep_plain)

lemma text_read_Cons: "c \<noteq> CHR 0x0D \<Longrightarrow> text_read (c # cs) = c # text_read cs"
  by (cases cs) auto

lemma text_read_id: "CHR 0x0D \<notin> set d \<Longrightarrow> text_read d = d"
  by (induction d) (auto simp: text_read_Cons)

lemma text_roundtrip:
  assumes "CHR 0x0D \<notin> set d" and "sep = [CHR 0x0A] \<or> sep = [CHR 0x0D, CHR 0x0A]"
  shows "text_read (text_write sep d) = d"
  using assms by (induction d) (auto simp: text_write_def text_read_Cons)


lemma resolve_mono:
  assumes "resolve fs p = Inr q" and "\<And>r. is_dir fs r \<Longrightarrow> is_dir fs' r"
  shows "resolve fs' p = Inr q"
proof -
  from assms(1) have w: "walk fs [] p = Inr q"
    and a: "\<not> (\<exists>c \<in> set p. CHR 0x00 \<in> set c)" "\<not> 4096 \<le> path_bytes p"
    by (auto simp: resolve_def split: if_splits sum.splits)
  from w assms(2) have "walk fs' [] p = Inr q" by (rule walk_mono)
  with a show ?thesis by (simp add: resolve_def)
qed

section \<open>Facts about rounding\<close>








section \<open>The digest of the example URL\<close>

lemma md5_test_vector: "CacheUrl_hash ex_url = Inr ex_key"
  unfolding ex_url_def ex_key_def codepoints_def by code_simp

lemma joinpath_ex_key: "joinpath p ex_key = p @ [ex_key]"
  by (simp add: joinpath_def is_absolute_def parts_def ex_key_def)

lemma ex_key_path:
  "joinpath (cache_dir ex_cache) ex_key = [''tmp'', ''cache'', ''test_app'', ex_key]"
  by (simp add: joinpath_ex_key ex_cache_def)

lemma ex_cached_stat:
  "stat (files ex_cached) [''tmp'', ''cache'', ''test_app'', ex_key]
     = Inr \<lparr>kind = File ''a,b'', st_birthtime = 1000, st_mtime = 1000\<rparr>"
  by (simp add: ex_cached_def stat_def resolve_def path_bytes_def name_bytes_def
      ex_key_def ex_dir_def)

lemma ex_empty_stat:
  "stat (files ex_empty) [''tmp'', ''cache'', ''test_app'', ex_key] = Inl (OSError ENOENT)"
  by (simp add: ex_empty_def stat_def resolve_def path_bytes_def name_bytes_def
      ex_key_def ex_dir_def)

lemma ex_cached_exists: "CacheUrl_exists ex_cache ex_cached ex_url = Inr True"
  by (simp add: CacheUrl_exists_def Cache_exists_def md5_test_vector ex_key_path
      path_exists_def ex_cached_stat)

lemma ex_cached_load: "CacheUrl_load ex_cache ex_cached ex_url = Inr ''a,b''"
  by (simp add: CacheUrl_load_def Cache_load_def md5_test_vector ex_key_path
      path_exists_def read_file_def ex_cached_stat)

lemma ex_empty_miss: "CacheUrl_exists ex_cache ex_empty ex_url = Inr False"
  by (simp add: CacheUrl_exists_def Cache_exists_def md5_test_vector ex_key_path
      path_exists_def ex_empty_stat)

lemma ex_empty_resolve:
  "resolve (files ex_empty) [''tmp'', ''cache'', ''test_app'', ex_key]
     = Inr [''tmp'', ''cache'', ''test_app'', ex_key]"
  by (simp add: ex_empty_def resolve_def path_bytes_def name_bytes_def ex_key_def ex_dir_def)

lemma ex_empty_set:
  "\<exists>w2. Cache_set E ex_cache (ex_empty\<lparr>requests := rq\<rparr>) ex_key d = (Inr (), w2)"
proof -
  have n: "map_of (files ex_empty) [''tmp'', ''cache'', ''test_app'', ex_key] = None"
    by (simp add: ex_empty_def)
  have d: "is_dir (files ex_empty) [''tmp'', ''cache'', ''test_app'']"
    by (simp add: ex_empty_def is_dir_def ex_dir_def)
  show ?thesis
    using n d by (simp add: Cache_set_def ex_key_path write_file_def ex_empty_resolve)
qed

section \<open>Writing an entry\<close>

lemma write_file_dirs:
  assumes "write_file t fs p bytes = Inr fs'" and "is_dir fs r"
  shows "is_dir fs' r"
  using assms
  by (auto simp: write_file_def is_dir_def update_conv' map_of_touch
      split: sum.splits option.splits if_splits)

lemma write_file_result:
  assumes "write_file t fs p bytes = Inr fs'"
  shows "\<exists>q n. resolve fs' p = Inr q \<and> map_of fs' q = Some n \<and> kind n = File bytes"
proof -
  from assms obtain q where q: "resolve fs p = Inr q"
    by (auto simp: write_file_def split: sum.splits)
  have w': "resolve fs' p = Inr q"
    using q write_file_dirs [OF assms] by (rule resolve_mono)
  show ?thesis
  proof (cases "map_of fs q")
    case None
    with assms q have d: "is_dir fs (butlast q)"
      and fs': "fs' = touch t (butlast q)
          (AList.update q \<lparr>kind = File bytes, st_birthtime = t, st_mtime = t\<rparr> fs)"
      by (auto simp: write_file_def split: if_splits)
    from d None have "butlast q \<noteq> q" by (auto simp: is_dir_def)
    then have "map_of fs' q = Some \<lparr>kind = File bytes, st_birthtime = t, st_mtime = t\<rparr>"
      by (simp add: fs' map_of_touch update_conv')
    with w' show ?thesis by auto
  next
    case (Some n)
    with assms q have "fs' = AList.update q (n\<lparr>kind := File bytes, st_mtime := t\<rparr>) fs"
      by (auto simp: write_file_def split: if_splits)
    then have "map_of fs' q = Some (n\<lparr>kind := File bytes, st_mtime := t\<rparr>)"
      by (simp add: update_conv')
    with w' show ?thesis by auto
  qed
qed

lemma set_then_load:
  assumes "Cache_set E c w k d = (Inr u, w')"
  shows "Cache_exists c w' k = Inr True
       \<and> Cache_load c w' k = Inr (text_read (text_write (linesep E) d))"
proof -
  from assms have wf: "write_file (now E) (files w) (joinpath (cache_dir c) k)
      (text_write (linesep E) d) = Inr (files w')"
    by (auto simp: Cache_set_def split: sum.splits)
  from write_file_result [OF wf] show ?thesis
    by (auto simp: Cache_exists_def Cache_load_def path_exists_def stat_def read_file_def)
qed

lemma get_hit:
  "CacheUrl_exists c w url = Inr True \<Longrightarrow>
   CacheUrl_get E c w url = (CacheUrl_load c w url, w)"
  by (auto simp: CacheUrl_get_def CacheUrl_exists_def CacheUrl_load_def split: sum.splits)

lemma Cache_set_requests:
  "Cache_set E c w k d = (r, w') \<Longrightarrow> requests w' = requests w"
  by (auto simp: Cache_set_def split: sum.splits)

section \<open>Entries of the namespace directory\<close>

lemma walk_entry:
  assumes "walk fs [] cd = Inr q" and "is_dir fs q" and "k \<noteq> ''..''"
    and "name_bytes k \<le> 255"
  shows "walk fs [] (cd @ [k]) = Inr (q @ [k])"
  using assms by (auto simp: walk_append is_dir_def split: option.splits)

lemma path_bytes_append [simp]: "path_bytes (p @ q) = path_bytes p + path_bytes q"
  by (simp add: path_bytes_def)

lemma resolveD:
  assumes "resolve fs p = Inr q"
  shows "walk fs [] p = Inr q \<and> (\<forall>c \<in> set p. CHR 0x00 \<notin> set c) \<and> path_bytes p < 4096"
  using assms by (auto simp: resolve_def split: if_splits sum.splits)

lemma resolveI:
  assumes "walk fs [] p = Inr q" and "\<forall>c \<in> set p. CHR 0x00 \<notin> set c" and "path_bytes p < 4096"
  shows "resolve fs p = Inr q"
  using assms by (auto simp: resolve_def)

section \<open>Claim C3: set, then exists and load\<close>

text \<open>
  Claim C3: after \<open>set(k, d)\<close>, \<open>exists(k)\<close> is true and \<open>load(k)\<close> returns \<open>d\<close>, as
  the docstring of \<^verbatim>\<open>load\<close> and the test \<^verbatim>\<open>test_cache_set_and_load\<close> show it. The two
  \<^verbatim>\<open>open\<close> calls of \<^verbatim>\<open>cache.py\<close> leave the newline translation of the text mode on,
  and a payload with a carriage return does not come back: on the example cache
  \<open>set("k", "a\rb")\<close> succeeds, \<open>exists("k")\<close> is true and \<open>load("k")\<close> returns
  \<open>"a\nb"\<close>.
\<close>

theorem set_load_carriage_return:
  "fst (Cache_set ex_offline ex_cache ex_empty ''k'' [CHR ''a'', CHR 0x0D, CHR ''b'']) = Inr ()
   \<and> Cache_exists ex_cache
        (snd (Cache_set ex_offline ex_cache ex_empty ''k'' [CHR ''a'', CHR 0x0D, CHR ''b''])) ''k''
      = Inr True
   \<and> Cache_load ex_cache
        (snd (Cache_set ex_offline ex_cache ex_empty ''k'' [CHR ''a'', CHR 0x0D, CHR ''b''])) ''k''
      = Inr [CHR ''a'', CHR 0x0A, CHR ''b'']
   \<and> [CHR ''a'', CHR 0x0A, CHR ''b''] \<noteq> [CHR ''a'', CHR 0x0D, CHR ''b'']"
  by (simp add: Cache_set_def Cache_load_def Cache_exists_def write_file_def read_file_def
      path_exists_def stat_def resolve_def path_bytes_def name_bytes_def is_dir_def touch_def
      joinpath_def is_absolute_def parts_def text_write_def
      ex_offline_def ex_cache_def ex_empty_def ex_dir_def)

section \<open>Claim C1: the second get\<close>

text \<open>
  Claim C1: a second \<open>get(url)\<close> returns exactly the body the first one fetched, with
  no request. The branch of \<^verbatim>\<open>get\<close> that fetches returns the text of the response,
  the branch that finds the entry returns what \<^verbatim>\<open>load\<close> reads from the file in text
  mode, and the two differ for a body with a carriage return. With a server answering
  200 and the body \<open>"a\rb"\<close>, the first \<open>get\<close> on the empty example cache returns
  \<open>"a\rb"\<close>; the second, without network, sends no request and returns \<open>"a\nb"\<close>.
\<close>

theorem second_get_carriage_return:
  "fst (CacheUrl_get (ex_online 200 [CHR ''a'', CHR 0x0D, CHR ''b'']) ex_cache ex_empty ex_url)
     = Inr [CHR ''a'', CHR 0x0D, CHR ''b'']
   \<and> fst (CacheUrl_get ex_offline ex_cache
        (snd (CacheUrl_get (ex_online 200 [CHR ''a'', CHR 0x0D, CHR ''b'']) ex_cache ex_empty ex_url))
        ex_url)
     = Inr [CHR ''a'', CHR 0x0A, CHR ''b'']
   \<and> requests (snd (CacheUrl_get ex_offline ex_cache
        (snd (CacheUrl_get (ex_online 200 [CHR ''a'', CHR 0x0D, CHR ''b'']) ex_cache ex_empty ex_url))
        ex_url))
     = [ex_url]
   \<and> [CHR ''a'', CHR 0x0A, CHR ''b''] \<noteq> [CHR ''a'', CHR 0x0D, CHR ''b'']"
proof -
  let ?body = "[CHR ''a'', CHR 0x0D, CHR ''b'']"
  let ?E = "ex_online 200 ?body"
  let ?w1 = "ex_empty\<lparr>requests := requests ex_empty @ [ex_url]\<rparr>"
  have m: "Cache_exists ex_cache ex_empty ex_key = Inr False"
    using ex_empty_miss by (simp add: CacheUrl_exists_def md5_test_vector)
  from ex_empty_set [of ?E "requests ex_empty @ [ex_url]" ?body]
  obtain w2 where s: "Cache_set ?E ex_cache ?w1 ex_key ?body = (Inr (), w2)"
    by blast
  have g: "CacheUrl_get ?E ex_cache ex_empty ex_url = (Inr ?body, w2)"
    using m s by (simp add: CacheUrl_get_def md5_test_vector raise_for_status_def ex_online_def)
  from set_then_load [OF s]
  have e: "Cache_exists ex_cache w2 ex_key = Inr True"
    and l: "Cache_load ex_cache w2 ex_key = Inr (text_read (text_write (linesep ?E) ?body))"
    by simp_all
  have r: "requests w2 = [ex_url]"
    using Cache_set_requests [OF s] by (simp add: ex_empty_def)
  have t: "text_read (text_write (linesep ?E) ?body) = [CHR ''a'', CHR 0x0A, CHR ''b'']"
    by (simp add: text_write_def ex_online_def)
  have h: "CacheUrl_get ex_offline ex_cache w2 ex_url = (Inr [CHR ''a'', CHR 0x0A, CHR ''b''], w2)"
    using e l t by (simp add: CacheUrl_get_def md5_test_vector)
  from g h r show ?thesis by simp
qed

section \<open>Claim C2: a failed request writes nothing\<close>

text \<open>
  Claim C2, as stated, fails for the status codes that are neither a success nor an
  error for \<^verbatim>\<open>raise_for_status\<close>: with a server answering 300 the \<open>get\<close> on the empty
  example cache returns the body and stores it.
\<close>

theorem non_success_status_counterexample:
  "CacheUrl_exists ex_cache ex_empty ex_url = Inr False
   \<and> \<not> (200 \<le> status_code (Response 300 ''moved'') \<and> status_code (Response 300 ''moved'') < 300)
   \<and> http (ex_online 300 ''moved'') ex_url = Inr (Response 300 ''moved'')
   \<and> fst (CacheUrl_get (ex_online 300 ''moved'') ex_cache ex_empty ex_url) = Inr ''moved''
   \<and> CacheUrl_exists ex_cache
        (snd (CacheUrl_get (ex_online 300 ''moved'') ex_cache ex_empty ex_url)) ex_url = Inr True"
proof -
  let ?E = "ex_online 300 ''moved''"
  let ?w1 = "ex_empty\<lparr>requests := requests ex_empty @ [ex_url]\<rparr>"
  have m: "CacheUrl_exists ex_cache ex_empty ex_url = Inr False"
    by (rule ex_empty_miss)
  then have m': "Cache_exists ex_cache ex_empty ex_key = Inr False"
    by (simp add: CacheUrl_exists_def md5_test_vector)
  from ex_empty_set [of ?E "requests ex_empty @ [ex_url]" "''moved''"]
  obtain w2 where s: "Cache_set ?E ex_cache ?w1 ex_key ''moved'' = (Inr (), w2)"
    by blast
  from s have e: "Cache_exists ex_cache w2 ex_key = Inr True"
    using set_then_load [of ?E ex_cache ?w1 ex_key "''moved''" "()" w2] by simp
  have g: "CacheUrl_get ?E ex_cache ex_empty ex_url = (Inr ''moved'', w2)"
    using m' s
    by (simp add: CacheUrl_get_def md5_test_vector raise_for_status_def ex_online_def)
  from m g e show ?thesis
    by (simp add: CacheUrl_exists_def md5_test_vector ex_online_def)
qed

text \<open>
  Claim C2, amended. For every URL not yet cached, if the GET of \<open>get(url)\<close> fails or
  returns a status from 400 to 599, then \<open>get(url)\<close> fails with the request's exception
  and the cache is unchanged: no file is written or touched, \<open>exists(url)\<close> stays false,
  and the one request is the only trace.
\<close>

theorem failed_get_leaves_cache_unchanged:
  assumes "CacheUrl_exists c w url = Inr False"
    and "(\<exists>e. http E url = Inl e)
         \<or> (\<exists>r. http E url = Inr r \<and> 400 \<le> status_code r \<and> status_code r < 600)"
  shows "(\<exists>e. fst (CacheUrl_get E c w url) = Inl (RequestException e))
       \<and> snd (CacheUrl_get E c w url) = w\<lparr>requests := requests w @ [url]\<rparr>
       \<and> files (snd (CacheUrl_get E c w url)) = files w
       \<and> CacheUrl_exists c (snd (CacheUrl_get E c w url)) url = Inr False"
  using assms
  by (auto simp: CacheUrl_get_def CacheUrl_exists_def Cache_exists_def raise_for_status_def
      Let_def split: sum.splits)

theorem failed_get_leaves_cache_unchanged_witness:
  "CacheUrl_exists ex_cache ex_empty ex_url = Inr False
   \<and> fst (CacheUrl_get (ex_online 500 ''oops'') ex_cache ex_empty ex_url)
       = Inl (RequestException (HTTPError 500))
   \<and> files (snd (CacheUrl_get (ex_online 500 ''oops'') ex_cache ex_empty ex_url)) = files ex_empty
   \<and> CacheUrl_exists ex_cache
        (snd (CacheUrl_get (ex_online 500 ''oops'') ex_cache ex_empty ex_url)) ex_url = Inr False"
proof -
  have m: "CacheUrl_exists ex_cache ex_empty ex_url = Inr False"
    by (rule ex_empty_miss)
  have h: "(\<exists>e. http (ex_online 500 ''oops'') ex_url = Inl e)
      \<or> (\<exists>r. http (ex_online 500 ''oops'') ex_url = Inr r
            \<and> 400 \<le> status_code r \<and> status_code r < 600)"
    by (simp add: ex_online_def)
  have v: "fst (CacheUrl_get (ex_online 500 ''oops'') ex_cache ex_empty ex_url)
      = Inl (RequestException (HTTPError 500))"
    using m
    by (auto simp: CacheUrl_get_def CacheUrl_exists_def raise_for_status_def ex_online_def
        md5_test_vector split: sum.splits)
  note T = failed_get_leaves_cache_unchanged [OF m h]
  from T have f: "files (snd (CacheUrl_get (ex_online 500 ''oops'') ex_cache ex_empty ex_url))
      = files ex_empty"
    by blast
  from T have e: "CacheUrl_exists ex_cache
      (snd (CacheUrl_get (ex_online 500 ''oops'') ex_cache ex_empty ex_url)) ex_url = Inr False"
    by blast
  from m v f e show ?thesis by blast
qed

section \<open>Claim C10: keys are not checked to be file names\<close>

text \<open>
  Claim C10. \<open>set\<close> passes the key to \<^verbatim>\<open>open\<close> as it is. With the namespace directory
  in place, \<open>set("sub/x", d)\<close> raises an \<open>OSError\<close> when the namespace has no entry
  \<open>sub\<close>, and writes nothing: no such file or directory, unless the path is too long
  for the operating system. So \<open>set\<close> is not free of failure; and when \<open>set(k, d)\<close>
  returns for a separator-free name \<open>k\<close>, the payload is the entry \<open>k\<close> of the namespace
  directory, one flat file for the key.
\<close>

theorem set_does_not_validate_keys:
  assumes "resolve (files w) (cache_dir c) = Inr q" and "is_dir (files w) q"
  shows "(map_of (files w) (q @ [''sub'']) = None \<longrightarrow>
            (\<exists>e. Cache_set E c w ''sub/x'' d = (Inl (OSError e), w)
               \<and> (path_bytes (cache_dir c) + 6 < 4096 \<longrightarrow> e = ENOENT)))
       \<and> (plain_name k \<and> Cache_set E c w k d = (Inr (), w') \<longrightarrow>
            (\<exists>n. map_of (files w') (q @ [k]) = Some n
               \<and> kind n = File (text_write (linesep E) d)))"
proof -
  from resolveD [OF assms(1)] have wq: "walk (files w) [] (cache_dir c) = Inr q"
    and nul: "\<forall>x \<in> set (cache_dir c). CHR 0x00 \<notin> set x"
    by simp_all
  have j: "joinpath (cache_dir c) ''sub/x'' = cache_dir c @ [''sub'', ''x'']"
    by (simp add: joinpath_def is_absolute_def parts_def)
  have pb: "path_bytes (cache_dir c @ [''sub'', ''x'']) = path_bytes (cache_dir c) + 6"
    by (simp add: path_bytes_def name_bytes_def)
  have a: "\<exists>e. Cache_set E c w ''sub/x'' d = (Inl (OSError e), w)
               \<and> (path_bytes (cache_dir c) + 6 < 4096 \<longrightarrow> e = ENOENT)"
    if "map_of (files w) (q @ [''sub'']) = None"
  proof -
    have "walk (files w) [] (cache_dir c @ [''sub'', ''x'']) = Inl ENOENT"
      using wq assms(2) that
      by (auto simp: walk_append is_dir_def name_bytes_def split: option.splits)
    then have "resolve (files w) (cache_dir c @ [''sub'', ''x''])
        = (if 4096 \<le> path_bytes (cache_dir c) + 6 then Inl (OSError ENAMETOOLONG)
           else Inl (OSError ENOENT))"
      using nul pb by (auto simp: resolve_def)
    then show ?thesis
      by (auto simp: Cache_set_def write_file_def j)
  qed
  have b: "\<exists>n. map_of (files w') (q @ [k]) = Some n
               \<and> kind n = File (text_write (linesep E) d)"
    if "plain_name k" "Cache_set E c w k d = (Inr (), w')"
  proof -
    from that(1) have k: "k \<noteq> ''..''" by (simp add: plain_name_def)
    from that have wf: "write_file (now E) (files w) (cache_dir c @ [k])
        (text_write (linesep E) d) = Inr (files w')"
      by (auto simp: Cache_set_def joinpath_plain split: sum.splits)
    then obtain q' where q': "resolve (files w) (cache_dir c @ [k]) = Inr q'"
      by (auto simp: write_file_def split: sum.splits)
    from resolveD [OF q'] have "walk (files w) [] (cache_dir c @ [k]) = Inr q'" by simp
    then have "q' = q @ [k]"
      using wq k by (auto simp: walk_append is_dir_def split: option.splits if_splits)
    with q' have rk: "resolve (files w) (cache_dir c @ [k]) = Inr (q @ [k])" by simp
    from write_file_result [OF wf] obtain q2 n where
      r2: "resolve (files w') (cache_dir c @ [k]) = Inr q2"
      and n: "map_of (files w') q2 = Some n" "kind n = File (text_write (linesep E) d)"
      by blast
    from rk write_file_dirs [OF wf] have "resolve (files w') (cache_dir c @ [k]) = Inr (q @ [k])"
      by (rule resolve_mono)
    with r2 have "q2 = q @ [k]" by simp
    with n show ?thesis by blast
  qed
  from a b show ?thesis by blast
qed

theorem set_does_not_validate_keys_witness:
  "CHR ''/'' \<in> set ''sub/x''
   \<and> Cache_set ex_offline ex_cache ex_empty ''sub/x'' ''hello'' = (Inl (OSError ENOENT), ex_empty)
   \<and> (\<exists>w' n. Cache_set ex_offline ex_cache ex_empty ''x'' ''hello'' = (Inr (), w')
        \<and> map_of (files w') [''tmp'', ''cache'', ''test_app'', ''x''] = Some n
        \<and> kind n = File ''hello'')"
proof -
  let ?w' = "snd (Cache_set ex_offline ex_cache ex_empty ''x'' ''hello'')"
  have w: "resolve (files ex_empty) (cache_dir ex_cache) = Inr [''tmp'', ''cache'', ''test_app'']"
    by (simp add: resolve_def path_bytes_def name_bytes_def ex_cache_def ex_empty_def ex_dir_def)
  have d: "is_dir (files ex_empty) [''tmp'', ''cache'', ''test_app'']"
    by (simp add: is_dir_def ex_empty_def ex_dir_def)
  have n: "map_of (files ex_empty) ([''tmp'', ''cache'', ''test_app''] @ [''sub'']) = None"
    by (simp add: ex_empty_def)
  have b: "path_bytes (cache_dir ex_cache) + 6 < 4096"
    by (simp add: path_bytes_def name_bytes_def ex_cache_def)
  have p: "plain_name ''x''"
    by (simp add: plain_name_def)
  have s: "Cache_set ex_offline ex_cache ex_empty ''x'' ''hello'' = (Inr (), ?w')"
    by (simp add: Cache_set_def write_file_def resolve_def path_bytes_def name_bytes_def
        is_dir_def joinpath_def is_absolute_def parts_def
        ex_offline_def ex_cache_def ex_empty_def ex_dir_def)
  note T = set_does_not_validate_keys [OF w d, of ex_offline "''hello''" "''x''" ?w']
  from T n b have f: "Cache_set ex_offline ex_cache ex_empty ''sub/x'' ''hello''
      = (Inl (OSError ENOENT), ex_empty)"
    by blast
  from T p s have "\<exists>n. map_of (files ?w') ([''tmp'', ''cache'', ''test_app''] @ [''x'']) = Some n
      \<and> kind n = File (text_write (linesep ex_offline) ''hello'')"
    by blast
  then have g: "\<exists>n. map_of (files ?w') [''tmp'', ''cache'', ''test_app'', ''x''] = Some n
      \<and> kind n = File ''hello''"
    by (simp add: text_write_def ex_offline_def)
  from f s g show ?thesis by auto
qed

section \<open>A hit of the URL cache reads only\<close>

text \<open>
  Claim C9. For a URL already present in the cache, \<open>get\<close> is a read: whatever the
  network would answer, the world after the call is the world before it, so no request
  was sent and no file was written; \<open>load\<close> and \<open>how_old\<close> of the URL give afterwards
  what they gave before, and the age at an unchanged clock is not reset.
\<close>

theorem get_hit_is_pure_read:
  assumes "CacheUrl_exists c w url = Inr True"
  shows "snd (CacheUrl_get E c w url) = w
       \<and> requests (snd (CacheUrl_get E c w url)) = requests w
       \<and> files (snd (CacheUrl_get E c w url)) = files w
       \<and> CacheUrl_load c (snd (CacheUrl_get E c w url)) url = CacheUrl_load c w url
       \<and> CacheUrl_how_old E' c (snd (CacheUrl_get E c w url)) url = CacheUrl_how_old E' c w url
       \<and> fst (CacheUrl_get E c w url) = CacheUrl_load c w url"
  using assms by (simp add: get_hit)

theorem get_hit_is_pure_read_witness:
  "CacheUrl_exists ex_cache ex_cached ex_url = Inr True
   \<and> snd (CacheUrl_get ex_offline ex_cache ex_cached ex_url) = ex_cached
   \<and> fst (CacheUrl_get ex_offline ex_cache ex_cached ex_url) = Inr ''a,b''"
proof -
  have h: "CacheUrl_exists ex_cache ex_cached ex_url = Inr True"
    by (rule ex_cached_exists)
  show ?thesis
    using get_hit_is_pure_read [OF h, of ex_offline ex_offline] h ex_cached_load by simp
qed

section \<open>Claim C8: the age of an entry\<close>






section \<open>Claim C6: clear\<close>




lemma unlink_is_dir:
  assumes "unlink t fs p = Inr fs'"
  shows "is_dir fs' r = is_dir fs r"
  using assms
  by (auto simp: unlink_def is_dir_def delete_conv' map_of_touch
      split: sum.splits option.splits if_splits)

lemma unlink_dom:
  assumes "unlink t fs p = Inr fs'" and "map_of fs r = None"
  shows "map_of fs' r = None"
  using assms
  by (auto simp: unlink_def delete_conv' map_of_touch
      split: sum.splits option.splits if_splits)







lemma missing_entry:
  assumes q: "resolve fs cd = Inr q" and dq: "is_dir fs q"
    and gone: "map_of fs (q @ [x]) = None" and x: "x \<noteq> ''..''" "name_bytes x \<le> 255"
    and ok: "\<forall>c \<in> set (x # rest). CHR 0x00 \<notin> set c" "path_bytes (cd @ x # rest) < 4096"
  shows "path_exists fs (cd @ x # rest) = Inr False"
proof -
  from resolveD [OF q] have wq: "walk fs [] cd = Inr q"
    and nul: "\<forall>c \<in> set cd. CHR 0x00 \<notin> set c"
    by simp_all
  have w: "walk fs [] (cd @ x # rest) = (if rest = [] then Inr (q @ [x]) else Inl ENOENT)"
    using wq dq gone x
    by (cases rest) (auto simp: walk_append is_dir_def split: option.splits)
  have r: "resolve fs (cd @ x # rest)
      = (if rest = [] then Inr (q @ [x]) else Inl (OSError ENOENT))"
    using w nul ok by (auto simp: resolve_def)
  show ?thesis
    using r gone by (auto simp: path_exists_def stat_def)
qed




section \<open>Claim C4: a key that was never set\<close>

lemma walk_error:
  "walk fs cur cs = Inl e \<Longrightarrow> e = ENOENT \<or> e = ENOTDIR \<or> e = ENAMETOOLONG"
  by (induction cs arbitrary: cur) (auto split: option.splits if_splits)

lemma walk_same_dirs_fail:
  assumes "\<And>r. is_dir fs' r = is_dir fs r" and "walk fs cur cs = Inl e"
    and "e \<noteq> ENAMETOOLONG"
  shows "\<exists>e'. walk fs' cur cs = Inl e' \<and> e' \<noteq> ENAMETOOLONG"
  using assms(2)
proof (induction cs arbitrary: cur)
  case Nil
  then show ?case by simp
next
  case (Cons c cs)
  show ?case
  proof (cases "is_dir fs cur")
    case True
    then obtain n where n: "map_of fs cur = Some n" "kind n = Dir"
      by (auto simp: is_dir_def split: option.splits)
    from True have "is_dir fs' cur" by (simp add: assms(1))
    then obtain n' where n': "map_of fs' cur = Some n'" "kind n' = Dir"
      by (auto simp: is_dir_def split: option.splits)
    from Cons.prems n assms(3) have l: "\<not> 255 < name_bytes c"
      by (auto split: if_splits)
    with Cons.prems n have "walk fs (if c = ''..'' then butlast cur else cur @ [c]) cs = Inl e"
      by simp
    then have "\<exists>e'. walk fs' (if c = ''..'' then butlast cur else cur @ [c]) cs = Inl e'
        \<and> e' \<noteq> ENAMETOOLONG"
      by (rule Cons.IH)
    with n' l show ?thesis by simp
  next
    case False
    then have "\<not> is_dir fs' cur" by (simp add: assms(1))
    then show ?thesis by (auto simp: is_dir_def split: option.splits)
  qed
qed

lemma exists_false_preserved:
  assumes d: "\<And>r. is_dir fs' r = is_dir fs r"
    and m: "\<And>q. resolve fs p = Inr q \<Longrightarrow> map_of fs q = None \<Longrightarrow> map_of fs' q = None"
    and e: "path_exists fs p = Inr False"
  shows "path_exists fs' p = Inr False"
proof (cases "resolve fs p")
  case (Inr q)
  with e have "map_of fs q = None"
    by (auto simp: path_exists_def stat_def split: option.splits)
  with Inr have "map_of fs' q = None" by (rule m)
  moreover from Inr have "resolve fs' p = Inr q"
    by (rule resolve_mono) (simp add: d)
  ultimately show ?thesis by (simp add: path_exists_def stat_def)
next
  case (Inl err)
  with e have ig: "ignore_error err"
    by (auto simp: path_exists_def stat_def split: if_splits)
  show ?thesis
  proof (cases "\<exists>c \<in> set p. CHR 0x00 \<in> set c")
    case True
    then have "resolve fs' p = Inl ValueError" by (simp add: resolve_def)
    then show ?thesis by (simp add: path_exists_def stat_def)
  next
    case False
    with Inl ig have pb: "\<not> 4096 \<le> path_bytes p"
      by (auto simp: resolve_def split: if_splits)
    with Inl False obtain n where n: "walk fs [] p = Inl n" "err = OSError n"
      by (auto simp: resolve_def split: sum.splits)
    with ig have "n \<noteq> ENAMETOOLONG" by auto
    with d n(1) obtain n' where n': "walk fs' [] p = Inl n'" "n' \<noteq> ENAMETOOLONG"
      using walk_same_dirs_fail by blast
    from walk_error [OF n'(1)] n'(2) have "n' = ENOENT \<or> n' = ENOTDIR" by simp
    with n'(1) False pb show ?thesis
      by (auto simp: path_exists_def stat_def resolve_def)
  qed
qed

lemma write_file_is_dir:
  assumes "write_file t fs p bytes = Inr fs'"
  shows "is_dir fs' r = is_dir fs r"
  using assms
  by (auto simp: write_file_def is_dir_def update_conv' map_of_touch
      split: sum.splits option.splits if_splits)

lemma write_file_frame:
  assumes "write_file t fs p bytes = Inr fs'"
  shows "\<exists>q. resolve fs p = Inr q \<and> (\<forall>r. r \<noteq> q \<longrightarrow> map_of fs r = None \<longrightarrow> map_of fs' r = None)"
  using assms
  by (auto simp: write_file_def update_conv' map_of_touch
      split: sum.splits option.splits if_splits)

lemma set_keeps_missing:
  assumes e: "Cache_exists c w k = Inr False"
    and n: "\<not> writes_entry c w (Set k' d) k"
  shows "Cache_exists c (snd (Cache_set E c w k' d)) k = Inr False"
proof (cases "write_file (now E) (files w) (joinpath (cache_dir c) k') (text_write (linesep E) d)")
  case (Inl err)
  with e show ?thesis by (simp add: Cache_set_def)
next
  case (Inr fs')
  from write_file_frame [OF Inr] obtain q where
    q: "resolve (files w) (joinpath (cache_dir c) k') = Inr q"
    and f: "\<forall>r. r \<noteq> q \<longrightarrow> map_of (files w) r = None \<longrightarrow> map_of fs' r = None"
    by blast
  from n q have ne: "resolve (files w) (joinpath (cache_dir c) k) \<noteq> Inr q"
    by (simp add: writes_entry_def)
  have "path_exists fs' (joinpath (cache_dir c) k) = Inr False"
  proof (rule exists_false_preserved)
    show "\<And>r. is_dir fs' r = is_dir (files w) r" by (rule write_file_is_dir [OF Inr])
    show "\<And>r. resolve (files w) (joinpath (cache_dir c) k) = Inr r \<Longrightarrow>
        map_of (files w) r = None \<Longrightarrow> map_of fs' r = None"
      using ne f by auto
    show "path_exists (files w) (joinpath (cache_dir c) k) = Inr False"
      using e by (simp add: Cache_exists_def)
  qed
  with Inr show ?thesis by (simp add: Cache_set_def Cache_exists_def)
qed

lemma exists_requests [simp]:
  "Cache_exists c (w\<lparr>requests := rq\<rparr>) k = Cache_exists c w k"
  by (simp add: Cache_exists_def)

lemma writes_entry_requests:
  "writes_entry c (w\<lparr>requests := rq\<rparr>) oper k = writes_entry c w oper k"
  by (cases oper) (auto simp: writes_entry_def split: option.splits sum.splits)

lemma get_keeps_missing:
  assumes e: "Cache_exists c w k = Inr False"
    and n: "\<not> writes_entry c w (Get u) k"
  shows "Cache_exists c (snd (CacheUrl_get E c w u)) k = Inr False"
proof (cases "CacheUrl_hash u")
  case (Inl err)
  with e show ?thesis by (simp add: CacheUrl_get_def)
next
  case (Inr h)
  let ?w1 = "w\<lparr>requests := requests w @ [u]\<rparr>"
  from n Inr have "\<not> writes_entry c w (Set h d) k" for d
    by (simp add: writes_entry_def)
  then have "\<not> writes_entry c ?w1 (Set h d) k" for d
    by (simp add: writes_entry_requests)
  moreover from e have "Cache_exists c ?w1 k = Inr False" by simp
  ultimately have "Cache_exists c (snd (Cache_set E c ?w1 h d)) k = Inr False" for d
    by (rule set_keeps_missing [rotated])
  then have s: "Cache_exists c w2 k = Inr False" if "Cache_set E c ?w1 h d = (r, w2)" for d r w2
    using that by (metis snd_conv)
  show ?thesis
    using e Inr s
    by (auto simp: CacheUrl_get_def Let_def split: sum.splits prod.splits)
qed

lemma unlink_keeps_missing:
  assumes "unlink t fs p = Inr fs'" and "path_exists fs r = Inr False"
  shows "path_exists fs' r = Inr False"
  using unlink_is_dir [OF assms(1)] _ assms(2)
  by (rule exists_false_preserved) (rule unlink_dom [OF assms(1)])

lemma delete_keeps_missing:
  assumes "Cache_exists c w k = Inr False"
  shows "Cache_exists c (snd (Cache_delete E c w k')) k = Inr False"
  using assms
  by (auto simp: Cache_delete_def Cache_exists_def Let_def unlink_keeps_missing
      split: sum.splits)

lemma unlink_each_keeps_missing:
  assumes "path_exists (files w) r = Inr False"
  shows "path_exists (files (snd (unlink_each E w es))) r = Inr False"
  using assms
  by (induction es arbitrary: w) (auto simp: unlink_keeps_missing split: sum.splits)

lemma clear_keeps_missing:
  assumes "Cache_exists c w k = Inr False"
  shows "Cache_exists c (snd (Cache_clear E c w)) k = Inr False"
  using assms
  by (auto simp: Cache_clear_def Cache_exists_def unlink_each_keeps_missing split: sum.splits)

lemma exec_keeps_missing:
  assumes "Cache_exists c w k = Inr False" and "\<not> writes_entry c w (snd x) k"
  shows "Cache_exists c (exec c w x) k = Inr False"
proof (cases x)
  case (Pair E oper)
  with assms show ?thesis
    by (cases oper)
      (simp_all add: set_keeps_missing get_keeps_missing delete_keeps_missing
        clear_keeps_missing)
qed

lemma run_keeps_missing:
  assumes "Cache_exists c w k = Inr False" and "never_written c k w ops"
  shows "Cache_exists c (run c w ops) k = Inr False"
  using assms
proof (induction ops arbitrary: w)
  case Nil
  then show ?case by (simp add: run_def)
next
  case (Cons x xs)
  from Cons.prems have "Cache_exists c (exec c w x) k = Inr False"
    by (simp add: exec_keeps_missing)
  moreover from Cons.prems have "never_written c k (exec c w x) xs" by simp
  ultimately have "Cache_exists c (run c (exec c w x) xs) k = Inr False"
    by (rule Cons.IH)
  then show ?case by (simp add: run_def)
qed

lemma missing_fails_with_CacheError:
  assumes "Cache_exists c w k = Inr False"
  shows "Cache_load c w k = Inl (CacheError (Some (no_file_msg k)))
       \<and> Cache_how_old E c w k = Inl (CacheError (Some (no_file_msg k)))
       \<and> Cache_delete E c w k = (Inl (CacheError None), w)"
  using assms
  by (simp add: Cache_exists_def Cache_load_def Cache_how_old_def Cache_delete_def)

lemma joinpath_long_name: "joinpath p ex_long_name = p @ [ex_long_name]"
proof -
  have "ex_long_name \<noteq> ''.''" "ex_long_name \<noteq> ''..''"
    by (auto simp: ex_long_name_def dest: arg_cong [where f = length])
  then have "plain_name ex_long_name"
    by (simp add: plain_name_def ex_long_name_def)
  then show ?thesis by (rule joinpath_plain)
qed

text \<open>
  Claim C4, as stated, fails for keys that are no names of entries. In the new, empty
  namespace of the example, where nothing was ever set, the key \<open>""\<close> names the
  namespace directory itself: \<open>exists("")\<close> is true and \<open>load("")\<close> fails with an
  \<open>OSError\<close> (is a directory); and for a name of 256 bytes \<open>exists\<close> does not return
  false but raises \<open>OSError\<close> (file name too long), and so does \<open>load\<close>.
\<close>

theorem never_set_key_counterexample:
  "never_written ex_cache '''' ex_empty []
   \<and> Cache_exists ex_cache (run ex_cache ex_empty []) '''' = Inr True
   \<and> Cache_load ex_cache (run ex_cache ex_empty []) '''' = Inl (OSError EISDIR)
   \<and> never_written ex_cache ex_long_name ex_empty []
   \<and> Cache_exists ex_cache (run ex_cache ex_empty []) ex_long_name = Inl (OSError ENAMETOOLONG)
   \<and> Cache_load ex_cache (run ex_cache ex_empty []) ex_long_name = Inl (OSError ENAMETOOLONG)"
proof -
  have a: "Cache_exists ex_cache ex_empty '''' = Inr True"
    "Cache_load ex_cache ex_empty '''' = Inl (OSError EISDIR)"
    by (simp_all add: Cache_exists_def Cache_load_def path_exists_def read_file_def stat_def
        resolve_def path_bytes_def name_bytes_def joinpath_def is_absolute_def parts_def
        ex_cache_def ex_empty_def ex_dir_def)
  have n: "name_bytes ex_long_name = 256" "CHR 0x00 \<notin> set ex_long_name"
    by (simp_all add: name_bytes_def ex_long_name_def)
  have s: "stat (files ex_empty) [''tmp'', ''cache'', ''test_app'', ex_long_name]
      = Inl (OSError ENAMETOOLONG)"
    using n
    by (simp add: stat_def resolve_def path_bytes_def ex_empty_def ex_dir_def)
  have b: "Cache_exists ex_cache ex_empty ex_long_name = Inl (OSError ENAMETOOLONG)"
    "Cache_load ex_cache ex_empty ex_long_name = Inl (OSError ENAMETOOLONG)"
    using s
    by (simp_all add: Cache_exists_def Cache_load_def path_exists_def joinpath_long_name
        ex_cache_def)
  from a b show ?thesis by (simp add: run_def)
qed

text \<open>
  Claim C4, amended. Take any history of calls on a cache (\<open>set\<close>, \<open>get\<close>, \<open>exists\<close>,
  \<open>load\<close>, \<open>how_old\<close>, \<open>delete\<close>, \<open>clear\<close>, in any order and with any arguments) and a
  key \<open>k\<close> that no \<open>set\<close> or \<open>get\<close> of the history has written. If \<open>k\<close> is a plain file
  name of at most 255 bytes, its path shorter than 4096 bytes, and the namespace
  directory had no entry \<open>k\<close> when the history began, then after the history \<open>exists(k)\<close>
  returns false and \<open>load(k)\<close>, \<open>how_old(k)\<close> and \<open>delete(k)\<close> each fail with
  \<open>CacheError\<close>, the NotFound kind, and \<open>delete\<close> changes nothing. The same holds for
  every key, plain or not, for which \<open>exists\<close> was false when the history began.
\<close>

theorem never_written_key_is_missing:
  "(plain_name k \<and> name_bytes k \<le> 255 \<and> path_bytes (cache_dir c @ [k]) < 4096
      \<and> resolve (files w0) (cache_dir c) = Inr q \<and> is_dir (files w0) q
      \<and> map_of (files w0) (q @ [k]) = None
      \<and> never_written c k w0 ops
    \<longrightarrow> Cache_exists c (run c w0 ops) k = Inr False
      \<and> Cache_load c (run c w0 ops) k = Inl (CacheError (Some (no_file_msg k)))
      \<and> Cache_how_old E c (run c w0 ops) k = Inl (CacheError (Some (no_file_msg k)))
      \<and> Cache_delete E c (run c w0 ops) k = (Inl (CacheError None), run c w0 ops))
   \<and> (Cache_exists c w0 k = Inr False \<and> never_written c k w0 ops
    \<longrightarrow> Cache_exists c (run c w0 ops) k = Inr False
      \<and> Cache_load c (run c w0 ops) k = Inl (CacheError (Some (no_file_msg k)))
      \<and> Cache_how_old E c (run c w0 ops) k = Inl (CacheError (Some (no_file_msg k)))
      \<and> Cache_delete E c (run c w0 ops) k = (Inl (CacheError None), run c w0 ops))"
proof -
  have gen: "Cache_exists c (run c w0 ops) k = Inr False
      \<and> Cache_load c (run c w0 ops) k = Inl (CacheError (Some (no_file_msg k)))
      \<and> Cache_how_old E c (run c w0 ops) k = Inl (CacheError (Some (no_file_msg k)))
      \<and> Cache_delete E c (run c w0 ops) k = (Inl (CacheError None), run c w0 ops)"
    if e: "Cache_exists c w0 k = Inr False" and n: "never_written c k w0 ops"
  proof -
    from e n have "Cache_exists c (run c w0 ops) k = Inr False" by (rule run_keeps_missing)
    with missing_fails_with_CacheError [OF this, of E] show ?thesis by simp
  qed
  have start: "Cache_exists c w0 k = Inr False"
    if p: "plain_name k" and l: "name_bytes k \<le> 255"
      and b: "path_bytes (cache_dir c @ [k]) < 4096"
      and q: "resolve (files w0) (cache_dir c) = Inr q" and d: "is_dir (files w0) q"
      and m: "map_of (files w0) (q @ [k]) = None"
  proof (cases "CHR 0x00 \<in> set k")
    case True
    then have "resolve (files w0) (cache_dir c @ [k]) = Inl ValueError"
      by (simp add: resolve_def)
    then show ?thesis
      using p by (simp add: Cache_exists_def joinpath_plain path_exists_def stat_def)
  next
    case False
    from p have x: "k \<noteq> ''..''" by (simp add: plain_name_def)
    from False have ok: "\<forall>y \<in> set (k # []). CHR 0x00 \<notin> set y" by simp
    from missing_entry [OF q d m x l ok b] show ?thesis
      using p by (simp add: Cache_exists_def joinpath_plain)
  qed
  from gen start show ?thesis by blast
qed

theorem never_written_key_is_missing_witness:
  "never_written ex_cache ''b.txt'' ex_empty ex_history
   \<and> Cache_exists ex_cache (run ex_cache ex_empty ex_history) ''b.txt'' = Inr False
   \<and> Cache_load ex_cache (run ex_cache ex_empty ex_history) ''b.txt''
      = Inl (CacheError (Some (no_file_msg ''b.txt'')))
   \<and> Cache_how_old ex_offline ex_cache (run ex_cache ex_empty ex_history) ''b.txt''
      = Inl (CacheError (Some (no_file_msg ''b.txt'')))
   \<and> Cache_delete ex_offline ex_cache (run ex_cache ex_empty ex_history) ''b.txt''
      = (Inl (CacheError None), run ex_cache ex_empty ex_history)"
proof -
  have p: "plain_name ''b.txt''" "name_bytes ''b.txt'' \<le> 255"
    "path_bytes (cache_dir ex_cache @ [''b.txt'']) < 4096"
    by (simp_all add: plain_name_def name_bytes_def path_bytes_def ex_cache_def)
  have q: "resolve (files ex_empty) (cache_dir ex_cache) = Inr [''tmp'', ''cache'', ''test_app'']"
    "is_dir (files ex_empty) [''tmp'', ''cache'', ''test_app'']"
    "map_of (files ex_empty) ([''tmp'', ''cache'', ''test_app''] @ [''b.txt'']) = None"
    by (simp_all add: resolve_def path_bytes_def name_bytes_def is_dir_def
        ex_cache_def ex_empty_def ex_dir_def)
  have e: "Cache_exists ex_cache ex_empty ''b.txt'' = Inr False"
    by (simp add: Cache_exists_def path_exists_def stat_def resolve_def path_bytes_def
        name_bytes_def joinpath_def is_absolute_def parts_def
        ex_cache_def ex_empty_def ex_dir_def)
  have n: "never_written ex_cache ''b.txt'' ex_empty ex_history"
    by (simp add: ex_history_def writes_entry_def md5_test_vector CacheUrl_get_def
        Cache_set_def Cache_exists_def Cache_delete_def write_file_def unlink_def
        path_exists_def stat_def resolve_def path_bytes_def name_bytes_def is_dir_def touch_def
        raise_for_status_def joinpath_def is_absolute_def parts_def text_write_def
        ex_offline_def ex_online_def ex_cache_def ex_empty_def ex_dir_def ex_key_def)
  from never_written_key_is_missing
    [of "''b.txt''" ex_cache ex_empty "[''tmp'', ''cache'', ''test_app'']" ex_history ex_offline]
    p q e n
  show ?thesis by blast
qed

end
